theory Spec2Isabelle
  imports Main "HOL-Library.AList"
begin

section \<open>The Horizon client: data model\<close>

text \<open>
  The class \<^verbatim>\<open>HorizonClient\<close> buffers log records, drains the buffer into a batch when a
  size threshold is reached or a timer fires, and posts the batch with a bounded
  exponential backoff. JavaScript numbers are modelled as \<open>int\<close> (fractions, NaN and
  Infinity are outside the model), a timer handle as a \<open>nat\<close>, an object literal as an
  association list in key order, and the JSON body of a request as the list of records
  that \<^verbatim>\<open>JSON.stringify\<close> serialises. Metadata values are JSON values, so the
  serialisation does not throw.
\<close>

datatype level = Debug | Info | Warn | Error | Fatal

datatype jsval = JUndefined | JNull | JBool bool | JString string

type_synonym metadata = "(string \<times> jsval) list"

record LogRecord =
  level :: level
  message :: string
  metadata :: metadata
  timestamp :: string

record HorizonClientOptions =
  opt_apiKey :: "string option"
  opt_ingestUrl :: "string option"
  opt_environment :: "string option"
  opt_batchSize :: "int option"
  opt_flushInterval :: "int option"
  opt_maxRetries :: "int option"

record HorizonClient =
  apiKey :: string
  ingestUrl :: string
  environment :: string
  batchSize :: int
  flushInterval :: int
  maxRetries :: int
  buffer :: "LogRecord list"
  timer :: "nat option"

text \<open>A thrown \<^verbatim>\<open>new Error(msg)\<close>.\<close>

datatype exn = JsError string

text \<open>
  The operator \<^verbatim>\<open>x || d\<close> on an optional string and on an optional number: the default
  is taken when the left operand is undefined, the empty string or zero.
\<close>

definition or_string :: "string option \<Rightarrow> string \<Rightarrow> string" where
  "or_string x d = (case x of None \<Rightarrow> d | Some s \<Rightarrow> if s = [] then d else s)"

definition or_number :: "int option \<Rightarrow> int \<Rightarrow> int" where
  "or_number x d = (case x of None \<Rightarrow> d | Some n \<Rightarrow> if n = 0 then d else n)"

text \<open>The constructor: the fields are assigned, then a falsy key throws.\<close>

definition new_HorizonClient :: "HorizonClientOptions \<Rightarrow> exn + HorizonClient" where
  "new_HorizonClient opts =
     (case opt_apiKey opts of
        None \<Rightarrow> Inl (JsError ''Horizon API Key is required'')
      | Some k \<Rightarrow>
          if k = [] then Inl (JsError ''Horizon API Key is required'')
          else Inr \<lparr> apiKey = k,
                     ingestUrl = or_string (opt_ingestUrl opts) ''https://horizon-api.bylinee.com/v1/ingest'',
                     environment = or_string (opt_environment opts) ''production'',
                     batchSize = or_number (opt_batchSize opts) 50,
                     flushInterval = or_number (opt_flushInterval opts) 2000,
                     maxRetries = or_number (opt_maxRetries opts) 3,
                     buffer = [],
                     timer = None \<rparr>)"

section \<open>Effects, promises and the event loop\<close>

record request =
  url :: string
  http_method :: string
  headers :: "(string \<times> string) list"
  body :: "LogRecord list"

text \<open>
  What \<^verbatim>\<open>await fetch(...)\<close> resumes with: a response with its status, or the rejection
  of the fetch promise (a network-level exception), which lands in the \<^verbatim>\<open>catch\<close> block.
\<close>

datatype response = Status int | NetworkError

datatype event =
    SetTimeout nat int
  | ClearTimeout nat
  | Post request response
  | Sleep int
  | ConsoleError string
  | ProcessExit int

datatype 'a settled = Fulfilled 'a | Rejected exn

text \<open>
  The promise an \<^verbatim>\<open>async\<close> function returns, as the rest of its execution: settled, or
  suspended at an \<^verbatim>\<open>await\<close> of a fetch or of a backoff sleep. \<open>Emit\<close> is an effect
  performed after a resumption. The code that runs after a suspension in \<^verbatim>\<open>send\<close>,
  \<^verbatim>\<open>flush\<close> and \<^verbatim>\<open>captureLog\<close> reads only the configuration and the local payload, so
  a promise carries no client state.
\<close>

datatype 'a promise =
    Settled 'a
  | Emit event "'a promise"
  | AwaitFetch request "response \<Rightarrow> 'a promise"
  | AwaitSleep int "'a promise"

primrec bind_promise :: "'a promise \<Rightarrow> ('a \<Rightarrow> 'b promise) \<Rightarrow> 'b promise" where
  "bind_promise (Settled r) f = f r"
| "bind_promise (Emit e p) f = Emit e (bind_promise p f)"
| "bind_promise (AwaitFetch req k) f = AwaitFetch req (\<lambda>res. bind_promise (k res) f)"
| "bind_promise (AwaitSleep ms p) f = AwaitSleep ms (bind_promise p f)"

text \<open>\<^verbatim>\<open>await p\<close> outside a \<^verbatim>\<open>try\<close>: a rejection of \<open>p\<close> rejects the awaiting function.\<close>

definition await :: "'a settled promise \<Rightarrow> ('a \<Rightarrow> 'b settled promise) \<Rightarrow> 'b settled promise" where
  "await p k = bind_promise p (\<lambda>r. case r of Fulfilled a \<Rightarrow> k a | Rejected e \<Rightarrow> Settled (Rejected e))"

primrec is_settled :: "'a promise \<Rightarrow> bool" where
  "is_settled (Settled r) = True"
| "is_settled (Emit e p) = False"
| "is_settled (AwaitFetch req k) = False"
| "is_settled (AwaitSleep ms p) = False"


text \<open>
  Running a promise to its settlement against the network: \<open>net n\<close> answers the \<open>n\<close>-th
  fetch from now on. The result is the trace of events in order, the settled value and
  the network as it is left.
\<close>

primrec run :: "'a promise \<Rightarrow> (nat \<Rightarrow> response) \<Rightarrow> event list \<times> 'a \<times> (nat \<Rightarrow> response)" where
  "run (Settled r) net = ([], r, net)"
| "run (Emit e p) net = (case run p net of (tr, r, net') \<Rightarrow> (e # tr, r, net'))"
| "run (AwaitFetch req k) net =
     (case run (k (net 0)) (\<lambda>n. net (Suc n)) of (tr, r, net') \<Rightarrow> (Post req (net 0) # tr, r, net'))"
| "run (AwaitSleep ms p) net = (case run p net of (tr, r, net') \<Rightarrow> (Sleep ms # tr, r, net'))"

text \<open>
  Observers of traces. The suspension points of the code are the await of a fetch and
  the await of a backoff sleep.
\<close>

fun is_suspension :: "event \<Rightarrow> bool" where
  "is_suspension (Post req res) = True"
| "is_suspension (Sleep ms) = True"
| "is_suspension e = False"

fun is_console :: "event \<Rightarrow> bool" where
  "is_console (ConsoleError msg) = True"
| "is_console e = False"

fun is_post :: "event \<Rightarrow> bool" where
  "is_post (Post req res) = True"
| "is_post e = False"

fun is_sleep :: "event \<Rightarrow> bool" where
  "is_sleep (Sleep ms) = True"
| "is_sleep e = False"

fun is_set_timeout :: "event \<Rightarrow> bool" where
  "is_set_timeout (SetTimeout h ms) = True"
| "is_set_timeout e = False"

fun is_exit :: "event \<Rightarrow> bool" where
  "is_exit (ProcessExit code) = True"
| "is_exit e = False"

text \<open>
  The client in its runtime: the timers of \<^verbatim>\<open>setTimeout(() => this.flush(), ...)\<close> that
  are armed (neither fired nor cleared), and the next fresh handle.
\<close>

record world =
  client :: HorizonClient
  armed :: "nat list"
  next_handle :: nat

definition setTimeout :: "world \<Rightarrow> nat \<times> world" where
  "setTimeout w =
     (next_handle w, w\<lparr>armed := armed w @ [next_handle w], next_handle := Suc (next_handle w)\<rparr>)"

definition clearTimeout :: "nat \<Rightarrow> world \<Rightarrow> world" where
  "clearTimeout h w = w\<lparr>armed := removeAll h (armed w)\<rparr>"

section \<open>The sender and the flush\<close>

definition res_ok :: "int \<Rightarrow> bool" where
  "res_ok s = (200 \<le> s \<and> s \<le> 299)"

definition ingest_request :: "HorizonClient \<Rightarrow> LogRecord list \<Rightarrow> request" where
  "ingest_request c payload =
     \<lparr> url = ingestUrl c,
       http_method = ''POST'',
       headers = [(''Content-Type'', ''application/json''), (''x-api-key'', apiKey c)],
       body = payload \<rparr>"

text \<open>The closure \<^verbatim>\<open>send\<close> of \<^verbatim>\<open>flush\<close>; delays are in milliseconds.\<close>

function send :: "HorizonClient \<Rightarrow> LogRecord list \<Rightarrow> nat \<Rightarrow> bool settled promise" where
  "send c payload attempt =
     AwaitFetch (ingest_request c payload) (\<lambda>res.
       case res of
         Status s \<Rightarrow>
           if res_ok s \<or> (s \<ge> 400 \<and> s < 500) then Settled (Fulfilled True)
           else if s \<ge> 500 \<and> int attempt < maxRetries c then
             AwaitSleep (2 ^ attempt * 1000) (send c payload (attempt + 1))
           else Settled (Fulfilled False)
       | NetworkError \<Rightarrow>
           if int attempt < maxRetries c then
             AwaitSleep (2 ^ attempt * 1000) (send c payload (attempt + 1))
           else Settled (Fulfilled False))"
  by pat_completeness auto
termination
  by (relation "measure (\<lambda>(c, payload, attempt). nat (maxRetries c - int attempt))") auto

declare send.simps [simp del]

definition failure_message :: string where
  "failure_message = ''[Horizon SDK] Failed to send logs after multiple retries.''"

text \<open>
  \<^verbatim>\<open>flush\<close> up to its first suspension (the state it leaves, the effects it performs) and
  the promise it returns. The closure reads \<^verbatim>\<open>this.ingestUrl\<close>, \<^verbatim>\<open>this.apiKey\<close> and
  \<^verbatim>\<open>this.maxRetries\<close>, which no method assigns, so it is given the client of the call.
\<close>

definition flush :: "world \<Rightarrow> world \<times> event list \<times> unit settled promise" where
  "flush w =
     (if buffer (client w) = [] then (w, [], Settled (Fulfilled ()))
      else
        let (w1, evs) =
              (case timer (client w) of
                 Some h \<Rightarrow> ((clearTimeout h w)\<lparr>client := (client w)\<lparr>timer := None\<rparr>\<rparr>, [ClearTimeout h])
               | None \<Rightarrow> (w, []));
            payload = buffer (client w1);
            w2 = w1\<lparr>client := (client w1)\<lparr>buffer := []\<rparr>\<rparr>
        in (w2, evs,
            await (send (client w) payload 0)
              (\<lambda>success.
                 if \<not> success then Emit (ConsoleError failure_message) (Settled (Fulfilled ()))
                 else Settled (Fulfilled ()))))"

section \<open>Recording\<close>

definition make_record :: "HorizonClient \<Rightarrow> level \<Rightarrow> string \<Rightarrow> metadata \<Rightarrow> string \<Rightarrow> LogRecord" where
  "make_record c lvl msg meta now =
     \<lparr> level = lvl,
       message = msg,
       metadata = AList.update ''sdk_env'' (JString (environment c)) meta,
       timestamp = now \<rparr>"

text \<open>
  \<^verbatim>\<open>captureLog\<close>; \<open>now\<close> is the value of \<^verbatim>\<open>new Date().toISOString()\<close>. As for \<open>flush\<close>,
  the result is the state and effects up to the return of the promise, and the promise.
\<close>

definition captureLog ::
  "level \<Rightarrow> string \<Rightarrow> metadata \<Rightarrow> string \<Rightarrow> world \<Rightarrow> world \<times> event list \<times> unit settled promise" where
  "captureLog lvl msg meta now w =
     (let c = client w;
          w1 = w\<lparr>client := c\<lparr>buffer := buffer c @ [make_record c lvl msg meta now]\<rparr>\<rparr>
      in if int (length (buffer (client w1))) \<ge> batchSize (client w1) then
           (case flush w1 of (w2, evs, p) \<Rightarrow> (w2, evs, await p (\<lambda>u. Settled (Fulfilled ()))))
         else if timer (client w1) = None then
           (case setTimeout w1 of (h, w2) \<Rightarrow>
              (w2\<lparr>client := (client w2)\<lparr>timer := Some h\<rparr>\<rparr>,
               [SetTimeout h (flushInterval (client w1))],
               Settled (Fulfilled ())))
         else (w1, [], Settled (Fulfilled ())))"

text \<open>The callback \<^verbatim>\<open>() => this.flush()\<close> of an armed timer; its promise is dropped.\<close>

definition timer_fires :: "nat \<Rightarrow> world \<Rightarrow> world \<times> event list \<times> unit settled promise" where
  "timer_fires h w =
     (if h \<in> set (armed w) then flush (w\<lparr>armed := removeAll h (armed w)\<rparr>)
      else (w, [], Settled (Fulfilled ())))"

text \<open>The turns of the event loop that touch the client, and the states they reach.\<close>

datatype action = CaptureLog level string metadata string | TimerFires nat | Flush

fun step :: "world \<Rightarrow> action \<Rightarrow> world" where
  "step w (CaptureLog lvl msg meta now) = fst (captureLog lvl msg meta now w)"
| "step w (TimerFires h) = fst (timer_fires h w)"
| "step w Flush = fst (flush w)"

definition boot :: "HorizonClient \<Rightarrow> world" where
  "boot c = \<lparr> client = c, armed = [], next_handle = 0 \<rparr>"

definition run_actions :: "HorizonClient \<Rightarrow> action list \<Rightarrow> world" where
  "run_actions c acts = foldl step (boot c) acts"

text \<open>
  The timer handle and the armed timers agree: no handle and no armed timer, or one
  handle, armed, guarding a buffer that is not empty.
\<close>

definition timer_inv :: "world \<Rightarrow> bool" where
  "timer_inv w =
     (case timer (client w) of
        None \<Rightarrow> armed w = []
      | Some h \<Rightarrow> armed w = [h] \<and> buffer (client w) \<noteq> [])"

section \<open>The watchdog\<close>










section \<open>Derived notions\<close>

text \<open>The configuration of a client: the fields that the constructor sets from the options.\<close>

definition config :: "HorizonClient \<Rightarrow> string \<times> string \<times> string \<times> int \<times> int \<times> int" where
  "config c = (apiKey c, ingestUrl c, environment c, batchSize c, flushInterval c, maxRetries c)"

text \<open>A run of \<^verbatim>\<open>captureLog\<close> calls, one after the other, with nothing in between.\<close>

definition capture_all :: "world \<Rightarrow> (level \<times> string \<times> metadata \<times> string) list \<Rightarrow> world" where
  "capture_all w calls = foldl (\<lambda>w (lvl, msg, meta, now). fst (captureLog lvl msg meta now w)) w calls"

text \<open>
  What a flush of the batch \<open>payload\<close> does after its drain, up to the settlement of its
  promise: the trace of \<^verbatim>\<open>send(0)\<close>, then the diagnostic when the send returned \<open>false\<close>.
\<close>

definition outcome_trace :: "HorizonClient \<Rightarrow> LogRecord list \<Rightarrow> (nat \<Rightarrow> response) \<Rightarrow> event list" where
  "outcome_trace c payload net =
     fst (run (send c payload 0) net)
       @ (if fst (snd (run (send c payload 0) net)) = Fulfilled False
          then [ConsoleError failure_message] else [])"

text \<open>A reply that the sender retries: a 5xx status or a network-level exception.\<close>

fun retryable :: "response \<Rightarrow> bool" where
  "retryable (Status s) = (500 \<le> s \<and> s \<le> 599)"
| "retryable NetworkError = True"

section \<open>Sample values\<close>

text \<open>
  A network that gives every fetch the same answer, and one that answers 503 once and
  304 from then on.
\<close>

definition net_always :: "response \<Rightarrow> nat \<Rightarrow> response" where
  "net_always r n = r"

definition net_503_then_304 :: "nat \<Rightarrow> response" where
  "net_503_then_304 n = (if n < 1 then Status 503 else Status 304)"

definition sample_options :: HorizonClientOptions where
  "sample_options =
     \<lparr> opt_apiKey = Some ''key'', opt_ingestUrl = None, opt_environment = None,
       opt_batchSize = Some 2, opt_flushInterval = None, opt_maxRetries = None \<rparr>"

definition sample_client :: HorizonClient where
  "sample_client =
     \<lparr> apiKey = ''key'', ingestUrl = ''https://horizon-api.bylinee.com/v1/ingest'',
       environment = ''production'', batchSize = 2, flushInterval = 2000, maxRetries = 3,
       buffer = [], timer = None \<rparr>"

definition record_a :: LogRecord where
  "record_a = make_record sample_client Info ''a'' [] ''t1''"

definition record_b :: LogRecord where
  "record_b = make_record sample_client Info ''b'' [] ''t2''"




section \<open>Running promises\<close>

lemma run_bind_promise:
  "run (bind_promise p f) net =
     (case run p net of (tr, r, net') \<Rightarrow>
        case run (f r) net' of (tr', r', net'') \<Rightarrow> (tr @ tr', r', net''))"
  by (induction p arbitrary: net) (auto split: prod.splits)

lemma run_await:
  "run (await p k) net =
     (case run p net of (tr, r, net') \<Rightarrow>
        (case r of
           Fulfilled a \<Rightarrow> (case run (k a) net' of (tr', r', net'') \<Rightarrow> (tr @ tr', r', net''))
         | Rejected e \<Rightarrow> (tr, Rejected e, net')))"
  by (simp add: await_def run_bind_promise split: prod.splits settled.splits)

section \<open>The sender\<close>

lemma send_fulfils: "\<exists>b. fst (snd (run (send c payload attempt) net)) = Fulfilled b"
proof (induction "nat (maxRetries c - int attempt)" arbitrary: attempt net)
  case 0
  then have "\<not> int attempt < maxRetries c" by simp
  then show ?case
    by (subst send.simps) (cases "net 0"; auto)
next
  case (Suc k)
  have "k = nat (maxRetries c - int (attempt + 1))" using Suc.hyps(2) by simp
  then obtain b where "fst (snd (run (send c payload (attempt + 1)) (\<lambda>n. net (Suc n)))) = Fulfilled b"
    using Suc.hyps(1) by blast
  then show ?case
    by (subst send.simps) (cases "net 0"; auto split: prod.splits)
qed

lemma run_send_shape:
  obtains tr b net' where "run (send c payload attempt) net = (tr, Fulfilled b, net')"
  using send_fulfils[of c payload attempt net] by (cases "run (send c payload attempt) net") auto

lemma send_only_suspends: "list_all is_suspension (fst (run (send c payload attempt) net))"
proof (induction "nat (maxRetries c - int attempt)" arbitrary: attempt net)
  case 0
  then have "\<not> int attempt < maxRetries c" by simp
  then show ?case
    by (subst send.simps) (cases "net 0"; auto)
next
  case (Suc k)
  have "k = nat (maxRetries c - int (attempt + 1))" using Suc.hyps(2) by simp
  then have "list_all is_suspension (fst (run (send c payload (attempt + 1)) (\<lambda>n. net (Suc n))))"
    using Suc.hyps(1) by blast
  then show ?case
    by (subst send.simps) (cases "net 0"; auto split: prod.splits)
qed

lemma suspensions_not_console: "list_all is_suspension tr \<Longrightarrow> filter is_console tr = []"
  by (induction tr) (auto elim: is_suspension.elims)

lemma suspensions_not_exit: "list_all is_suspension tr \<Longrightarrow> filter is_exit tr = []"
  by (induction tr) (auto elim: is_suspension.elims)

lemma send_no_console [simp]: "filter is_console (fst (run (send c payload attempt) net)) = []"
  by (simp add: suspensions_not_console send_only_suspends)

lemma send_no_exit [simp]: "filter is_exit (fst (run (send c payload attempt) net)) = []"
  by (simp add: suspensions_not_exit send_only_suspends)

lemma send_retry_step:
  assumes "retryable (net 0)" "int attempt < maxRetries c"
  shows "run (send c payload attempt) net =
     (case run (send c payload (attempt + 1)) (\<lambda>n. net (Suc n)) of
        (tr, r, net') \<Rightarrow> (Post (ingest_request c payload) (net 0) # Sleep (2 ^ attempt * 1000) # tr, r, net'))"
  using assms by (subst send.simps) (cases "net 0"; simp add: res_ok_def split: prod.splits)

lemma send_last_step:
  assumes "retryable (net 0)" "\<not> int attempt < maxRetries c"
  shows "run (send c payload attempt) net =
     ([Post (ingest_request c payload) (net 0)], Fulfilled False, \<lambda>n. net (Suc n))"
  using assms by (subst send.simps) (cases "net 0"; simp add: res_ok_def split: prod.splits)

lemma upt_0_Suc_shift: "[0..<Suc k] = 0 # map Suc [0..<k]"
  by (simp add: upt_conv_Cons map_Suc_upt del: upt_Suc)

lemma send_after_retries:
  assumes "\<forall>i<k. retryable (net i) \<and> int (attempt + i) < maxRetries c"
  shows "run (send c payload attempt) net =
     (case run (send c payload (attempt + k)) (\<lambda>n. net (n + k)) of
        (tr, r, net') \<Rightarrow>
          (concat (map (\<lambda>i. [Post (ingest_request c payload) (net i), Sleep (2 ^ (attempt + i) * 1000)])
                     [0..<k]) @ tr,
           r, net'))"
  using assms
proof (induction k arbitrary: attempt net)
  case 0
  then show ?case by (simp split: prod.splits)
next
  case (Suc k)
  have r0: "retryable (net 0)" and lt: "int attempt < maxRetries c"
    using Suc.prems by force+
  have "\<forall>i<k. retryable (net (Suc i)) \<and> int (attempt + 1 + i) < maxRetries c"
    using Suc.prems by force
  from Suc.IH[of "\<lambda>n. net (Suc n)" "attempt + 1", OF this]
  have ih: "run (send c payload (attempt + 1)) (\<lambda>n. net (Suc n)) =
     (case run (send c payload (attempt + Suc k)) (\<lambda>n. net (n + Suc k)) of
        (tr, r, net') \<Rightarrow>
          (concat (map (\<lambda>i. [Post (ingest_request c payload) (net (Suc i)),
                              Sleep (2 ^ (attempt + 1 + i) * 1000)]) [0..<k]) @ tr,
           r, net'))"
    by simp
  obtain tr r net' where final:
    "run (send c payload (attempt + Suc k)) (\<lambda>n. net (n + Suc k)) = (tr, r, net')"
    by (cases "run (send c payload (attempt + Suc k)) (\<lambda>n. net (n + Suc k))") auto
  have "run (send c payload (attempt + 1)) (\<lambda>n. net (Suc n)) =
     (concat (map (\<lambda>i. [Post (ingest_request c payload) (net (Suc i)),
                         Sleep (2 ^ (attempt + 1 + i) * 1000)]) [0..<k]) @ tr, r, net')"
    unfolding ih final by simp
  then have "run (send c payload attempt) net =
     (Post (ingest_request c payload) (net 0) # Sleep (2 ^ attempt * 1000) #
      concat (map (\<lambda>i. [Post (ingest_request c payload) (net (Suc i)),
                         Sleep (2 ^ (attempt + 1 + i) * 1000)]) [0..<k]) @ tr, r, net')"
    unfolding send_retry_step[of net attempt c payload, OF r0 lt] by simp
  then show ?case
    unfolding final by (simp add: upt_0_Suc_shift comp_def del: upt_Suc)
qed

lemma send_always_retryable:
  assumes "\<forall>n. retryable (net n)"
  shows "run (send c payload 0) net =
           (concat (map (\<lambda>a. [Post (ingest_request c payload) (net a), Sleep (2 ^ a * 1000)])
                      [0..<nat (maxRetries c)])
              @ [Post (ingest_request c payload) (net (nat (maxRetries c)))],
            Fulfilled False, \<lambda>n. net (Suc (n + nat (maxRetries c))))"
proof -
  have "\<forall>i<nat (maxRetries c). retryable (net i) \<and> int (0 + i) < maxRetries c"
    using assms by auto
  note pre = send_after_retries[OF this, of payload]
  have "retryable (net (0 + nat (maxRetries c)))" "\<not> int (0 + nat (maxRetries c)) < maxRetries c"
    using assms by auto
  note fin = send_last_step[of "\<lambda>n. net (n + nat (maxRetries c))" "0 + nat (maxRetries c)" c payload, simplified, OF this[simplified]]
  show ?thesis
    unfolding pre by (simp add: fin)
qed

lemma filter_post_attempts:
  "filter is_post (concat (map (\<lambda>a. [Post (f a) (g a), Sleep (d a)]) xs)) = map (\<lambda>a. Post (f a) (g a)) xs"
  by (induction xs) simp_all

lemma filter_sleep_attempts:
  "filter is_sleep (concat (map (\<lambda>a. [Post (f a) (g a), Sleep (d a)]) xs)) = map (\<lambda>a. Sleep (d a)) xs"
  by (induction xs) simp_all

lemma send_config:
  assumes "ingestUrl c' = ingestUrl c" "apiKey c' = apiKey c" "maxRetries c' = maxRetries c"
  shows "send c' payload attempt = send c payload attempt"
proof (induction "nat (maxRetries c - int attempt)" arbitrary: attempt)
  case 0
  then have "\<not> int attempt < maxRetries c" by simp
  then show ?case
    using assms
    by (subst send.simps, subst (2) send.simps)
       (auto simp: ingest_request_def fun_eq_iff split: response.splits)
next
  case (Suc k)
  have "k = nat (maxRetries c - int (attempt + 1))" using Suc.hyps(2) by simp
  then have "send c' payload (attempt + 1) = send c payload (attempt + 1)"
    using Suc.hyps(1) by blast
  then show ?case
    using assms
    by (subst send.simps, subst (2) send.simps)
       (auto simp: ingest_request_def fun_eq_iff split: response.splits)
qed

lemma send_buffer_update [simp]: "send (c\<lparr>buffer := b\<rparr>) payload attempt = send c payload attempt"
  by (rule send_config) simp_all

lemma send_timer_update [simp]: "send (c\<lparr>timer := t\<rparr>) payload attempt = send c payload attempt"
  by (rule send_config) simp_all

section \<open>State changes of flush and captureLog\<close>

lemma flush_empty: "buffer (client w) = [] \<Longrightarrow> flush w = (w, [], Settled (Fulfilled ()))"
  by (simp add: flush_def)

lemma flush_nonempty:
  assumes "buffer (client w) \<noteq> []"
  shows "flush w =
     (w\<lparr>client := (client w)\<lparr>timer := None, buffer := []\<rparr>,
        armed := (case timer (client w) of Some h \<Rightarrow> removeAll h (armed w) | None \<Rightarrow> armed w)\<rparr>,
      (case timer (client w) of Some h \<Rightarrow> [ClearTimeout h] | None \<Rightarrow> []),
      await (send (client w) (buffer (client w)) 0)
        (\<lambda>success. if \<not> success then Emit (ConsoleError failure_message) (Settled (Fulfilled ()))
                 else Settled (Fulfilled ())))"
  using assms by (cases "timer (client w)") (simp_all add: flush_def clearTimeout_def)

lemma flush_promise_awaits:
  assumes "buffer (client w) \<noteq> []"
  shows "\<exists>k. snd (snd (flush w)) = AwaitFetch (ingest_request (client w) (buffer (client w))) k"
  using assms by (simp add: flush_nonempty await_def) (subst send.simps, simp)

lemma flush_config: "config (client (fst (flush w))) = config (client w)"
  by (cases "buffer (client w) = []") (simp_all add: flush_empty flush_nonempty config_def)

lemma captureLog_below:
  assumes "int (length (buffer (client w))) + 1 < batchSize (client w)"
  shows "captureLog lvl msg meta now w =
     (case timer (client w) of
        None \<Rightarrow>
          (w\<lparr>client := (client w)\<lparr>buffer := buffer (client w) @ [make_record (client w) lvl msg meta now],
                                     timer := Some (next_handle w)\<rparr>,
             armed := armed w @ [next_handle w], next_handle := Suc (next_handle w)\<rparr>,
           [SetTimeout (next_handle w) (flushInterval (client w))], Settled (Fulfilled ()))
      | Some h \<Rightarrow>
          (w\<lparr>client := (client w)\<lparr>buffer := buffer (client w) @ [make_record (client w) lvl msg meta now]\<rparr>\<rparr>,
           [], Settled (Fulfilled ())))"
  using assms by (simp add: captureLog_def Let_def setTimeout_def split: option.splits)

lemma captureLog_threshold:
  assumes "batchSize (client w) \<le> int (length (buffer (client w))) + 1"
  shows "captureLog lvl msg meta now w =
     (w\<lparr>client := (client w)\<lparr>buffer := [], timer := None\<rparr>,
        armed := (case timer (client w) of Some h \<Rightarrow> removeAll h (armed w) | None \<Rightarrow> armed w)\<rparr>,
      (case timer (client w) of Some h \<Rightarrow> [ClearTimeout h] | None \<Rightarrow> []),
      await (await (send (client w)
                      (buffer (client w) @ [make_record (client w) lvl msg meta now]) 0)
               (\<lambda>success. if \<not> success then Emit (ConsoleError failure_message) (Settled (Fulfilled ()))
                          else Settled (Fulfilled ())))
        (\<lambda>u. Settled (Fulfilled ())))"
  using assms by (simp add: captureLog_def Let_def flush_nonempty split: option.splits)

lemma captureLog_promise_awaits:
  assumes "batchSize (client w) \<le> int (length (buffer (client w))) + 1"
  shows "\<exists>k. snd (snd (captureLog lvl msg meta now w)) =
           AwaitFetch (ingest_request (client w) (buffer (client w) @ [make_record (client w) lvl msg meta now])) k"
  using assms by (simp add: captureLog_threshold await_def) (subst send.simps, simp)

lemma captureLog_config: "config (client (fst (captureLog lvl msg meta now w))) = config (client w)"
  by (cases "batchSize (client w) \<le> int (length (buffer (client w))) + 1")
     (simp_all add: captureLog_threshold captureLog_below config_def split: option.splits)

lemma captureLog_arms:
  "filter is_set_timeout (fst (snd (captureLog lvl msg meta now w))) =
     (if timer (client w) = None \<and> int (length (buffer (client w))) + 1 < batchSize (client w)
      then [SetTimeout (next_handle w) (flushInterval (client w))] else [])"
  by (cases "batchSize (client w) \<le> int (length (buffer (client w))) + 1")
     (simp_all add: captureLog_threshold captureLog_below split: option.splits)

lemma captureLog_sync_effects:
  "filter is_suspension (fst (snd (captureLog lvl msg meta now w))) = []
   \<and> filter is_console (fst (snd (captureLog lvl msg meta now w))) = []"
  by (cases "batchSize (client w) \<le> int (length (buffer (client w))) + 1")
     (simp_all add: captureLog_threshold captureLog_below split: option.splits)

lemma captureLog_below_settled:
  assumes "int (length (buffer (client w))) + 1 < batchSize (client w)"
  shows "snd (snd (captureLog lvl msg meta now w)) = Settled (Fulfilled ())"
  by (simp add: captureLog_below[OF assms] split: option.splits)

lemma timer_fires_config: "config (client (fst (timer_fires h w))) = config (client w)"
  using flush_config[of "w\<lparr>armed := removeAll h (armed w)\<rparr>"] by (simp add: timer_fires_def)

lemma step_config: "config (client (step w a)) = config (client w)"
  by (cases a) (simp_all add: flush_config captureLog_config timer_fires_config)

lemma foldl_step_config: "config (client (foldl step w acts)) = config (client w)"
  by (induction acts arbitrary: w) (simp_all add: step_config)

lemma run_actions_config: "config (client (run_actions c acts)) = config c"
  by (simp add: run_actions_def foldl_step_config boot_def)

lemma capture_all_below:
  assumes "int (length (buffer (client w))) + int (length calls) < batchSize (client w)"
  shows "buffer (client (capture_all w calls)) =
           buffer (client w) @ map (\<lambda>(lvl, msg, meta, now). make_record (client w) lvl msg meta now) calls
       \<and> config (client (capture_all w calls)) = config (client w)"
  using assms
proof (induction calls arbitrary: w)
  case Nil
  then show ?case by (simp add: capture_all_def)
next
  case (Cons call calls)
  obtain lvl msg meta now where call: "call = (lvl, msg, meta, now)"
    by (cases call) auto
  let ?w1 = "fst (captureLog lvl msg meta now w)"
  have below: "int (length (buffer (client w))) + 1 < batchSize (client w)"
    using Cons.prems by simp
  have b1: "buffer (client ?w1) = buffer (client w) @ [make_record (client w) lvl msg meta now]"
    by (simp add: captureLog_below[OF below] split: option.splits)
  have c1: "config (client ?w1) = config (client w)"
    by (rule captureLog_config)
  then have e1: "batchSize (client ?w1) = batchSize (client w)" "environment (client ?w1) = environment (client w)"
    by (simp_all add: config_def)
  have "int (length (buffer (client ?w1))) + int (length calls) < batchSize (client ?w1)"
    using Cons.prems by (simp add: b1 e1)
  from Cons.IH[OF this] have
    "buffer (client (capture_all ?w1 calls)) =
       buffer (client ?w1) @ map (\<lambda>(lvl, msg, meta, now). make_record (client ?w1) lvl msg meta now) calls"
    "config (client (capture_all ?w1 calls)) = config (client ?w1)"
    by simp_all
  moreover have "capture_all w (call # calls) = capture_all ?w1 calls"
    by (simp add: capture_all_def call)
  moreover have "\<And>lvl msg meta now. make_record (client ?w1) lvl msg meta now = make_record (client w) lvl msg meta now"
    by (simp add: make_record_def e1)
  ultimately show ?case
    by (simp add: b1 c1 call)
qed

section \<open>The timer invariant\<close>

lemma flush_inv: "timer_inv w \<Longrightarrow> timer_inv (fst (flush w))"
  by (cases "buffer (client w) = []") (auto simp: flush_empty flush_nonempty timer_inv_def split: option.splits)

lemma captureLog_inv: "timer_inv w \<Longrightarrow> timer_inv (fst (captureLog lvl msg meta now w))"
  by (auto simp: captureLog_def Let_def flush_nonempty setTimeout_def timer_inv_def split: option.splits prod.splits)

lemma timer_fires_inv: "timer_inv w \<Longrightarrow> timer_inv (fst (timer_fires h w))"
  by (auto simp: timer_fires_def flush_nonempty timer_inv_def split: option.splits)

lemma step_inv: "timer_inv w \<Longrightarrow> timer_inv (step w a)"
  by (cases a) (simp_all add: flush_inv captureLog_inv timer_fires_inv)

lemma foldl_step_inv: "timer_inv w \<Longrightarrow> timer_inv (foldl step w acts)"
  by (induction acts arbitrary: w) (simp_all add: step_inv)

lemma boot_inv: "timer c = None \<Longrightarrow> timer_inv (boot c)"
  by (simp add: boot_def timer_inv_def)

lemma new_client_fresh: "new_HorizonClient opts = Inr c \<Longrightarrow> buffer c = [] \<and> timer c = None"
  by (auto simp: new_HorizonClient_def split: option.splits if_splits)

lemma reachable_inv: "new_HorizonClient opts = Inr c \<Longrightarrow> timer_inv (run_actions c acts)"
  unfolding run_actions_def by (rule foldl_step_inv) (simp add: boot_inv new_client_fresh)

section \<open>Settlement of the promises of flush and captureLog\<close>

lemma run_flush_promise:
  assumes "buffer (client w) \<noteq> []"
  shows "run (snd (snd (flush w))) net =
     (case run (send (client w) (buffer (client w)) 0) net of
        (tr, r, net') \<Rightarrow>
          (case r of
             Fulfilled success \<Rightarrow>
               (if success then tr else tr @ [ConsoleError failure_message], Fulfilled (), net')
           | Rejected e \<Rightarrow> (tr, Rejected e, net')))"
  using assms
  by (simp add: flush_nonempty await_def run_bind_promise split: prod.splits settled.splits)

lemma run_flush_outcome:
  assumes "buffer (client w) \<noteq> []"
  shows "run (snd (snd (flush w))) net =
     (fst (run (send (client w) (buffer (client w)) 0) net)
        @ (if fst (snd (run (send (client w) (buffer (client w)) 0) net)) = Fulfilled False
           then [ConsoleError failure_message] else []),
      Fulfilled (),
      snd (snd (run (send (client w) (buffer (client w)) 0) net)))"
proof -
  obtain tr b net' where r: "run (send (client w) (buffer (client w)) 0) net = (tr, Fulfilled b, net')"
    by (rule run_send_shape)
  show ?thesis
    by (simp add: run_flush_promise[OF assms] r)
qed

lemma run_captureLog_outcome:
  assumes "batchSize (client w) \<le> int (length (buffer (client w))) + 1"
  shows "run (snd (snd (captureLog lvl msg meta now w))) net =
     (fst (run (send (client w) (buffer (client w) @ [make_record (client w) lvl msg meta now]) 0) net)
        @ (if fst (snd (run (send (client w) (buffer (client w) @ [make_record (client w) lvl msg meta now]) 0) net))
                = Fulfilled False
           then [ConsoleError failure_message] else []),
      Fulfilled (),
      snd (snd (run (send (client w) (buffer (client w) @ [make_record (client w) lvl msg meta now]) 0) net)))"
proof -
  obtain tr b net' where r:
    "run (send (client w) (buffer (client w) @ [make_record (client w) lvl msg meta now]) 0) net
       = (tr, Fulfilled b, net')"
    by (rule run_send_shape)
  show ?thesis
    by (simp add: captureLog_threshold[OF assms] run_await r)
qed

lemma outcome_trace_config [simp]:
  "outcome_trace (c\<lparr>buffer := b\<rparr>) payload net = outcome_trace c payload net"
  "outcome_trace (c\<lparr>timer := t\<rparr>) payload net = outcome_trace c payload net"
  by (simp_all add: outcome_trace_def)

lemma outcome_trace_starts:
  "\<exists>rest. outcome_trace c payload net = Post (ingest_request c payload) (net 0) # rest"
  unfolding outcome_trace_def
  by (subst send.simps, subst (2) send.simps) (simp split: prod.splits)

lemma outcome_trace_no_exit [simp]: "filter is_exit (outcome_trace c payload net) = []"
  by (simp add: outcome_trace_def)

section \<open>The listeners, computed\<close>


















section \<open>Facts about the sample values\<close>

lemma sample_client_eq: "new_HorizonClient sample_options = Inr sample_client"
  by (simp add: new_HorizonClient_def sample_options_def sample_client_def or_string_def or_number_def)

lemma capture_a:
  "fst (captureLog Info ''a'' [] ''t1'' (boot sample_client)) =
     \<lparr>client = sample_client\<lparr>buffer := [record_a], timer := Some 0\<rparr>, armed = [0], next_handle = 1\<rparr>"
  by (simp add: captureLog_def Let_def boot_def sample_client_def record_a_def setTimeout_def)

lemma sample_world_a:
  "capture_all (boot sample_client) [(Info, ''a'', [], ''t1'')] =
     \<lparr>client = sample_client\<lparr>buffer := [record_a], timer := Some 0\<rparr>, armed = [0], next_handle = 1\<rparr>"
  by (simp add: capture_all_def capture_a)

lemma sample_record_b:
  "make_record (sample_client\<lparr>buffer := [record_a], timer := Some 0\<rparr>) Info ''b'' [] ''t2'' = record_b"
  by (simp add: make_record_def record_b_def sample_client_def)

lemma sample_threshold:
  "batchSize (client (capture_all (boot sample_client) [(Info, ''a'', [], ''t1'')]))
     \<le> int (length (buffer (client (capture_all (boot sample_client) [(Info, ''a'', [], ''t1'')])))) + 1"
  by (simp add: sample_world_a) (simp add: sample_client_def)

lemma run_send_sample_400:
  "run (send c payload attempt) (net_always (Status 400)) =
     ([Post (ingest_request c payload) (Status 400)], Fulfilled True, \<lambda>n. net_always (Status 400) (Suc n))"
  by (subst send.simps) (simp add: net_always_def)

lemma run_send_sample_503:
  "run (send sample_client payload 0) (net_always (Status 503)) =
     ([Post (ingest_request sample_client payload) (Status 503), Sleep 1000,
       Post (ingest_request sample_client payload) (Status 503), Sleep 2000,
       Post (ingest_request sample_client payload) (Status 503), Sleep 4000,
       Post (ingest_request sample_client payload) (Status 503)],
      Fulfilled False, net_always (Status 503))"
proof -
  have a: "\<forall>n. retryable (net_always (Status 503) n)"
    by (simp add: net_always_def)
  have m: "nat (maxRetries sample_client) = 3"
    by (simp add: sample_client_def)
  have u: "[0..<3] = [0, 1, 2::nat]"
    by (simp add: upt_rec)
  show ?thesis
    unfolding send_always_retryable[OF a] m u
    by (simp add: net_always_def fun_eq_iff)
qed





section \<open>Claim C1: retry with exponential backoff\<close>

text \<open>
  Claim C1. A batch whose every attempt is answered with a 5xx status or a network-level
  exception is posted on attempts \<open>0..maxRetries\<close> one after the other, that is exactly
  \<open>maxRetries + 1\<close> times for a retry count that is not negative, with a sleep of \<open>2 ^ a\<close>
  seconds (\<open>2 ^ a * 1000\<close> ms) between attempt \<open>a\<close> and attempt \<open>a + 1\<close> and none after the
  last. The send settles as abandoned (\<open>false\<close>); the flush reports it by the one console
  diagnostic and fulfils. (The trace is stated with \<open>nat maxRetries\<close>: a negative count
  behaves as zero retries.)
\<close>

theorem C1_retries_then_abandons:
  assumes "\<forall>n. retryable (net n)"
  shows "run (send c payload 0) net =
           (concat (map (\<lambda>a. [Post (ingest_request c payload) (net a), Sleep (2 ^ a * 1000)])
                      [0..<nat (maxRetries c)])
              @ [Post (ingest_request c payload) (net (nat (maxRetries c)))],
            Fulfilled False, \<lambda>n. net (Suc (n + nat (maxRetries c))))
       \<and> (0 \<le> maxRetries c \<longrightarrow>
            int (length (filter is_post (fst (run (send c payload 0) net)))) = maxRetries c + 1)
       \<and> filter is_sleep (fst (run (send c payload 0) net)) =
            map (\<lambda>a. Sleep (2 ^ a * 1000)) [0..<nat (maxRetries c)]
       \<and> (client w = c \<and> buffer c = payload \<and> payload \<noteq> [] \<longrightarrow>
            run (snd (snd (flush w))) net =
              (fst (run (send c payload 0) net) @ [ConsoleError failure_message], Fulfilled (),
               \<lambda>n. net (Suc (n + nat (maxRetries c)))))"
proof -
  note tr = send_always_retryable[OF assms, of c payload]
  have cnt: "0 \<le> maxRetries c \<longrightarrow>
            int (length (filter is_post (fst (run (send c payload 0) net)))) = maxRetries c + 1"
    by (simp add: tr filter_post_attempts)
  have sl: "filter is_sleep (fst (run (send c payload 0) net)) =
            map (\<lambda>a. Sleep (2 ^ a * 1000)) [0..<nat (maxRetries c)]"
    by (simp add: tr filter_sleep_attempts)
  have fl: "client w = c \<and> buffer c = payload \<and> payload \<noteq> [] \<longrightarrow>
            run (snd (snd (flush w))) net =
              (fst (run (send c payload 0) net) @ [ConsoleError failure_message], Fulfilled (),
               \<lambda>n. net (Suc (n + nat (maxRetries c))))"
  proof (intro impI, elim conjE)
    assume h: "client w = c" "buffer c = payload" "payload \<noteq> []"
    then have "buffer (client w) \<noteq> []" by simp
    from run_flush_promise[OF this, of net] h tr
    show "run (snd (snd (flush w))) net =
              (fst (run (send c payload 0) net) @ [ConsoleError failure_message], Fulfilled (),
               \<lambda>n. net (Suc (n + nat (maxRetries c))))"
      by simp
  qed
  from tr cnt sl fl show ?thesis by blast
qed

theorem C1_witness:
  "run (send sample_client [record_a] 0) (net_always (Status 503)) =
     ([Post (ingest_request sample_client [record_a]) (Status 503), Sleep 1000,
       Post (ingest_request sample_client [record_a]) (Status 503), Sleep 2000,
       Post (ingest_request sample_client [record_a]) (Status 503), Sleep 4000,
       Post (ingest_request sample_client [record_a]) (Status 503)],
      Fulfilled False, \<lambda>n. net_always (Status 503) (Suc (n + 3)))
   \<and> int (length (filter is_post
           (fst (run (send sample_client [record_a] 0) (net_always (Status 503)))))) = 4
   \<and> run (snd (snd (flush (boot (sample_client\<lparr>buffer := [record_a]\<rparr>))))) (net_always (Status 503)) =
     ([Post (ingest_request sample_client [record_a]) (Status 503), Sleep 1000,
       Post (ingest_request sample_client [record_a]) (Status 503), Sleep 2000,
       Post (ingest_request sample_client [record_a]) (Status 503), Sleep 4000,
       Post (ingest_request sample_client [record_a]) (Status 503),
       ConsoleError failure_message],
      Fulfilled (), \<lambda>n. net_always (Status 503) (Suc (n + 3)))"
proof -
  have a: "\<forall>n. retryable (net_always (Status 503) n)"
    by (simp add: net_always_def)
  have e: "net_always (Status 503) = (\<lambda>n. Status 503)"
    by (simp add: fun_eq_iff net_always_def)
  have m: "maxRetries sample_client = 3"
    by (simp add: sample_client_def)
  have u: "[0..<3] = [0, 1, 2::nat]"
    by (simp add: upt_rec)
  show ?thesis
    using C1_retries_then_abandons [OF a, of "sample_client\<lparr>buffer := [record_a]\<rparr>" "[record_a]"
            "boot (sample_client\<lparr>buffer := [record_a]\<rparr>)"]
    unfolding e
    by (simp add: m u boot_def ingest_request_def)
qed

section \<open>Claim C2: the threshold trigger\<close>

text \<open>
  Claim C2. In a state where the timer handle and the armed timers agree, a \<^verbatim>\<open>captureLog\<close>
  call that brings the buffer to the batch size or beyond flushes within the call: when
  the call returns its promise the POST has been issued with exactly the buffered records
  followed by the new one, the buffer is empty, the pending timer (if any) has been
  cleared, the handle is null and no timer is armed. The buffer after a run of calls from
  an empty buffer that stays below the batch size is the list of their records in call
  order.
\<close>

theorem C2_threshold_flush:
  assumes "timer_inv w"
    and "batchSize (client w) \<le> int (length (buffer (client w))) + 1"
  shows "fst (captureLog lvl msg meta now w) =
           w\<lparr>client := (client w)\<lparr>buffer := [], timer := None\<rparr>, armed := []\<rparr>
       \<and> fst (snd (captureLog lvl msg meta now w)) =
           (case timer (client w) of Some h \<Rightarrow> [ClearTimeout h] | None \<Rightarrow> [])
       \<and> (\<exists>k. snd (snd (captureLog lvl msg meta now w)) =
              AwaitFetch (ingest_request (client w)
                            (buffer (client w) @ [make_record (client w) lvl msg meta now])) k)
       \<and> (\<forall>w0 calls.
              buffer (client w0) = [] \<and> int (length calls) < batchSize (client w0)
                \<and> w = capture_all w0 calls \<longrightarrow>
              buffer (client w) =
                map (\<lambda>(lvl, msg, meta, now). make_record (client w0) lvl msg meta now) calls)"
proof (intro conjI allI impI)
  have a: "(case timer (client w) of Some h \<Rightarrow> removeAll h (armed w) | None \<Rightarrow> armed w) = []"
    using assms(1) by (simp add: timer_inv_def split: option.splits)
  show "fst (captureLog lvl msg meta now w) =
           w\<lparr>client := (client w)\<lparr>buffer := [], timer := None\<rparr>, armed := []\<rparr>"
    by (simp add: captureLog_threshold[OF assms(2)] a)
  show "fst (snd (captureLog lvl msg meta now w)) =
           (case timer (client w) of Some h \<Rightarrow> [ClearTimeout h] | None \<Rightarrow> [])"
    by (simp add: captureLog_threshold[OF assms(2)])
  show "\<exists>k. snd (snd (captureLog lvl msg meta now w)) =
              AwaitFetch (ingest_request (client w)
                            (buffer (client w) @ [make_record (client w) lvl msg meta now])) k"
    by (rule captureLog_promise_awaits[OF assms(2)])
next
  fix w0 calls
  assume h: "buffer (client w0) = [] \<and> int (length calls) < batchSize (client w0) \<and> w = capture_all w0 calls"
  then have "int (length (buffer (client w0))) + int (length calls) < batchSize (client w0)"
    by simp
  from capture_all_below[OF this] h
  show "buffer (client w) = map (\<lambda>(lvl, msg, meta, now). make_record (client w0) lvl msg meta now) calls"
    by simp
qed

theorem C2_witness:
  "fst (captureLog Info ''b'' [] ''t2'' (capture_all (boot sample_client) [(Info, ''a'', [], ''t1'')])) =
     \<lparr>client = sample_client, armed = [], next_handle = 1\<rparr>
   \<and> fst (snd (captureLog Info ''b'' [] ''t2'' (capture_all (boot sample_client) [(Info, ''a'', [], ''t1'')]))) =
     [ClearTimeout 0]
   \<and> (\<exists>k. snd (snd (captureLog Info ''b'' [] ''t2'' (capture_all (boot sample_client) [(Info, ''a'', [], ''t1'')]))) =
          AwaitFetch (ingest_request sample_client [record_a, record_b]) k)
   \<and> buffer (client (capture_all (boot sample_client) [(Info, ''a'', [], ''t1'')])) = [record_a]"
proof -
  let ?w = "\<lparr>client = sample_client\<lparr>buffer := [record_a], timer := Some 0\<rparr>, armed = [0], next_handle = 1\<rparr>"
  have w: "capture_all (boot sample_client) [(Info, ''a'', [], ''t1'')] = ?w"
    by (simp add: capture_all_def capture_a)
  have inv: "timer_inv ?w"
    by (simp add: timer_inv_def)
  have thr: "batchSize (client ?w) \<le> int (length (buffer (client ?w))) + 1"
    by (simp add: sample_client_def)
  have r: "make_record (sample_client\<lparr>buffer := [record_a], timer := Some 0\<rparr>) Info ''b'' [] ''t2'' = record_b"
    by (simp add: make_record_def record_b_def sample_client_def)
  have c: "sample_client\<lparr>buffer := [], timer := None\<rparr> = sample_client"
    by (simp add: sample_client_def)
  have pre: "buffer (client (boot sample_client)) = []
               \<and> int (length [(Info, ''a'', [], ''t1'')]) < batchSize (client (boot sample_client))
               \<and> ?w = capture_all (boot sample_client) [(Info, ''a'', [], ''t1'')]"
    by (simp add: w) (simp add: boot_def sample_client_def)
  note c2 = C2_threshold_flush [OF inv thr, of Info "''b''" "[]" "''t2''"]
  from c2 have "buffer (client ?w) =
      map (\<lambda>(lvl, msg, meta, now). make_record (client (boot sample_client)) lvl msg meta now)
        [(Info, ''a'', [], ''t1'')]"
    using pre by blast
  then have acc: "buffer (client ?w) = [record_a]"
    by simp
  from c2 acc show ?thesis
    unfolding w by (simp add: r c ingest_request_def)
qed

section \<open>Claim C3: delivered responses\<close>

text \<open>
  Claim C3. A send attempt that is answered with a 2xx or a 4xx status settles as
  delivered (\<open>true\<close>) after that one POST, with no sleep and no further attempt, whatever
  the attempt number. For the whole flush: after \<open>k\<close> retried attempts, such an answer to
  attempt \<open>k\<close> ends the trace with that POST, and nothing is logged; with \<open>k = 0\<close>, a 400
  on the first attempt gives exactly one POST.
\<close>

theorem C3_delivered_without_retry:
  assumes "(200 \<le> s \<and> s \<le> 299) \<or> (400 \<le> s \<and> s \<le> 499)"
  shows "(net 0 = Status s \<longrightarrow>
            run (send c payload attempt) net =
              ([Post (ingest_request c payload) (Status s)], Fulfilled True, \<lambda>n. net (Suc n)))
       \<and> ((\<forall>i<k. retryable (net i) \<and> int i < maxRetries (client w)) \<and> net k = Status s
              \<and> buffer (client w) \<noteq> [] \<longrightarrow>
            run (snd (snd (flush w))) net =
              (concat (map (\<lambda>a. [Post (ingest_request (client w) (buffer (client w))) (net a),
                                  Sleep (2 ^ a * 1000)]) [0..<k])
                 @ [Post (ingest_request (client w) (buffer (client w))) (Status s)],
               Fulfilled (), \<lambda>n. net (Suc (n + k))))"
proof -
  have t: "res_ok s \<or> (400 \<le> s \<and> s < 500)"
    using assms by (auto simp: res_ok_def)
  have one: "\<And>c payload attempt net. net 0 = Status s \<Longrightarrow> run (send c payload attempt) net =
           ([Post (ingest_request c payload) (Status s)], Fulfilled True, \<lambda>n. net (Suc n))"
    using t by (subst send.simps) simp
  have two: "(\<forall>i<k. retryable (net i) \<and> int i < maxRetries (client w)) \<and> net k = Status s
              \<and> buffer (client w) \<noteq> [] \<longrightarrow>
            run (snd (snd (flush w))) net =
              (concat (map (\<lambda>a. [Post (ingest_request (client w) (buffer (client w))) (net a),
                                  Sleep (2 ^ a * 1000)]) [0..<k])
                 @ [Post (ingest_request (client w) (buffer (client w))) (Status s)],
               Fulfilled (), \<lambda>n. net (Suc (n + k)))"
  proof (intro impI, elim conjE)
    assume pre: "\<forall>i<k. retryable (net i) \<and> int i < maxRetries (client w)"
      and nk: "net k = Status s" and ne: "buffer (client w) \<noteq> []"
    have "\<forall>i<k. retryable (net i) \<and> int (0 + i) < maxRetries (client w)"
      using pre by simp
    from send_after_retries[OF this, of "buffer (client w)"]
         one[of "\<lambda>n. net (n + k)" "client w" "buffer (client w)" k] nk
    have "run (send (client w) (buffer (client w)) 0) net =
      (concat (map (\<lambda>a. [Post (ingest_request (client w) (buffer (client w))) (net a),
                                  Sleep (2 ^ a * 1000)]) [0..<k])
                 @ [Post (ingest_request (client w) (buffer (client w))) (Status s)],
               Fulfilled True, \<lambda>n. net (Suc (n + k)))"
      by simp
    then show "run (snd (snd (flush w))) net =
              (concat (map (\<lambda>a. [Post (ingest_request (client w) (buffer (client w))) (net a),
                                  Sleep (2 ^ a * 1000)]) [0..<k])
                 @ [Post (ingest_request (client w) (buffer (client w))) (Status s)],
               Fulfilled (), \<lambda>n. net (Suc (n + k)))"
      by (simp add: run_flush_promise[OF ne])
  qed
  from one two show ?thesis by blast
qed

theorem C3_witness:
  "run (send sample_client [record_a] 0) (net_always (Status 400)) =
     ([Post (ingest_request sample_client [record_a]) (Status 400)], Fulfilled True,
      \<lambda>n. net_always (Status 400) (Suc n))
   \<and> run (snd (snd (flush (boot (sample_client\<lparr>buffer := [record_a]\<rparr>))))) (net_always (Status 400)) =
     ([Post (ingest_request sample_client [record_a]) (Status 400)], Fulfilled (),
      \<lambda>n. net_always (Status 400) (Suc n))"
proof -
  have s: "(200 \<le> (400::int) \<and> (400::int) \<le> 299) \<or> (400 \<le> (400::int) \<and> (400::int) \<le> 499)"
    by simp
  have n: "net_always (Status 400) 0 = Status 400"
    by (simp add: net_always_def)
  have b: "buffer (client (boot (sample_client\<lparr>buffer := [record_a]\<rparr>))) \<noteq> []"
    by (simp add: boot_def)
  show ?thesis
    using C3_delivered_without_retry [OF s, of "net_always (Status 400)" sample_client "[record_a]" 0 0
                                        "boot (sample_client\<lparr>buffer := [record_a]\<rparr>)"] n b
    by (simp add: boot_def ingest_request_def)
qed

section \<open>Claim C4: failures stay inside the client\<close>

text \<open>
  Claim C4 as stated fails where it says that every terminal failure is written to the
  console: a batch that the endpoint rejects with status 400 is posted once, counts as
  delivered, and nothing is written to the console, neither by the call nor before its
  promise settles.
\<close>

theorem C4_counterexample:
  "fst (run (snd (snd (captureLog Info ''b'' [] ''t2''
                          (capture_all (boot sample_client) [(Info, ''a'', [], ''t1'')]))))
            (net_always (Status 400))) =
     [Post (ingest_request sample_client [record_a, record_b]) (Status 400)]
   \<and> filter is_console
        (fst (snd (captureLog Info ''b'' [] ''t2''
                     (capture_all (boot sample_client) [(Info, ''a'', [], ''t1'')])))
         @ fst (run (snd (snd (captureLog Info ''b'' [] ''t2''
                                 (capture_all (boot sample_client) [(Info, ''a'', [], ''t1'')]))))
                  (net_always (Status 400)))) = []"
proof -
  have r: "fst (run (snd (snd (captureLog Info ''b'' [] ''t2''
                          (capture_all (boot sample_client) [(Info, ''a'', [], ''t1'')]))))
            (net_always (Status 400))) =
     [Post (ingest_request sample_client [record_a, record_b]) (Status 400)]"
    unfolding run_captureLog_outcome[OF sample_threshold]
    by (simp add: run_send_sample_400 sample_world_a sample_record_b ingest_request_def)
  show ?thesis
    by (simp add: r captureLog_sync_effects)
qed

text \<open>
  Claim C4, amended. Whatever the network answers, the promise that \<^verbatim>\<open>captureLog\<close>
  returns fulfils and so does the promise of a flush: no 5xx response, 4xx rejection,
  network-level exception or exhausted retry rejects them. The call itself writes nothing
  to the console. Before the promise settles, the failure diagnostic is written exactly
  when the call flushed and the send returned \<open>false\<close> (abandoned), once, and the same
  holds for a flush from any other trigger; a 4xx rejection counts as delivered and writes
  no diagnostic.
\<close>

theorem C4_failures_never_raised:
  "fst (snd (run (snd (snd (captureLog lvl msg meta now w))) net)) = Fulfilled ()
   \<and> fst (snd (run (snd (snd (flush w))) net)) = Fulfilled ()
   \<and> filter is_console (fst (snd (captureLog lvl msg meta now w))) = []
   \<and> filter is_console (fst (run (snd (snd (captureLog lvl msg meta now w))) net)) =
        (if batchSize (client w) \<le> int (length (buffer (client w))) + 1
            \<and> fst (snd (run (send (client w)
                                (buffer (client w) @ [make_record (client w) lvl msg meta now]) 0) net))
                = Fulfilled False
         then [ConsoleError failure_message] else [])
   \<and> filter is_console (fst (snd (flush w)) @ fst (run (snd (snd (flush w))) net)) =
        (if buffer (client w) \<noteq> []
            \<and> fst (snd (run (send (client w) (buffer (client w)) 0) net)) = Fulfilled False
         then [ConsoleError failure_message] else [])
   \<and> (net 0 = Status s \<and> 400 \<le> s \<and> s \<le> 499 \<longrightarrow>
        filter is_console (fst (run (snd (snd (captureLog lvl msg meta now w))) net)) = [])"
proof -
  let ?p = "snd (snd (captureLog lvl msg meta now w))"
  let ?send = "run (send (client w) (buffer (client w) @ [make_record (client w) lvl msg meta now]) 0) net"
  have res: "fst (snd (run ?p net)) = Fulfilled ()"
  proof (cases "batchSize (client w) \<le> int (length (buffer (client w))) + 1")
    case True
    then show ?thesis by (simp add: run_captureLog_outcome)
  next
    case False
    then show ?thesis by (simp add: captureLog_below_settled)
  qed
  have fl: "fst (snd (run (snd (snd (flush w))) net)) = Fulfilled ()"
    by (cases "buffer (client w) = []") (simp_all add: flush_empty run_flush_outcome)
  have con: "filter is_console (fst (run ?p net)) =
        (if batchSize (client w) \<le> int (length (buffer (client w))) + 1 \<and> fst (snd ?send) = Fulfilled False
         then [ConsoleError failure_message] else [])"
  proof (cases "batchSize (client w) \<le> int (length (buffer (client w))) + 1")
    case True
    then show ?thesis by (simp add: run_captureLog_outcome)
  next
    case False
    then show ?thesis by (simp add: captureLog_below_settled)
  qed
  have c4xx: "net 0 = Status s \<and> 400 \<le> s \<and> s \<le> 499 \<longrightarrow> filter is_console (fst (run ?p net)) = []"
  proof
    assume h: "net 0 = Status s \<and> 400 \<le> s \<and> s \<le> 499"
    have "fst (snd ?send) = Fulfilled True"
      using h by (subst send.simps) simp
    then show "filter is_console (fst (run ?p net)) = []"
      by (simp add: con)
  qed
  have flc: "filter is_console (fst (snd (flush w)) @ fst (run (snd (snd (flush w))) net)) =
        (if buffer (client w) \<noteq> []
            \<and> fst (snd (run (send (client w) (buffer (client w)) 0) net)) = Fulfilled False
         then [ConsoleError failure_message] else [])"
  proof (cases "buffer (client w) = []")
    case True
    then show ?thesis by (simp add: flush_empty)
  next
    case False
    have "filter is_console (fst (snd (flush w))) = []"
      by (simp add: flush_nonempty[OF False] split: option.splits)
    then show ?thesis
      using False by (simp add: run_flush_outcome)
  qed
  from res fl con flc c4xx captureLog_sync_effects[of lvl msg meta now w] show ?thesis
    by blast
qed

theorem C4_witness:
  "fst (snd (run (snd (snd (captureLog Info ''b'' [] ''t2''
                               (capture_all (boot sample_client) [(Info, ''a'', [], ''t1'')]))))
                 (net_always (Status 404)))) = Fulfilled ()
   \<and> filter is_console
        (fst (run (snd (snd (captureLog Info ''b'' [] ''t2''
                               (capture_all (boot sample_client) [(Info, ''a'', [], ''t1'')]))))
                (net_always (Status 404)))) = []"
proof -
  note c4 = C4_failures_never_raised [of Info "''b''" "[]" "''t2''"
          "capture_all (boot sample_client) [(Info, ''a'', [], ''t1'')]" "net_always (Status 404)" 404]
  have h: "net_always (Status 404) 0 = Status 404 \<and> (400::int) \<le> 404 \<and> (404::int) \<le> 499"
    by (simp add: net_always_def)
  from c4 h show ?thesis by blast
qed

section \<open>Claim C5: draining\<close>

text \<open>
  Claim C5. A flush of an empty buffer is a no-op: the state is unchanged, no effect is
  performed and the promise is already settled, so no request is made. A flush of a
  buffer that is not empty has reset the buffer to empty when it reaches its first
  suspension, the await of the POST whose body is the whole former buffer, and performs
  no suspending effect before it. So a second flush right after it is the no-op.
\<close>

theorem C5_flush_drains_atomically:
  "(buffer (client w) = [] \<longrightarrow> flush w = (w, [], Settled (Fulfilled ())))
   \<and> (buffer (client w) \<noteq> [] \<longrightarrow>
          buffer (client (fst (flush w))) = []
        \<and> filter is_suspension (fst (snd (flush w))) = []
        \<and> (\<exists>k. snd (snd (flush w)) = AwaitFetch (ingest_request (client w) (buffer (client w))) k)
        \<and> flush (fst (flush w)) = (fst (flush w), [], Settled (Fulfilled ())))"
proof (intro conjI impI)
  assume "buffer (client w) = []"
  then show "flush w = (w, [], Settled (Fulfilled ()))" by (rule flush_empty)
next
  assume ne: "buffer (client w) \<noteq> []"
  show drained: "buffer (client (fst (flush w))) = []"
    by (simp add: flush_nonempty[OF ne])
  show "filter is_suspension (fst (snd (flush w))) = []"
    by (simp add: flush_nonempty[OF ne] split: option.splits)
  show "\<exists>k. snd (snd (flush w)) = AwaitFetch (ingest_request (client w) (buffer (client w))) k"
    by (rule flush_promise_awaits[OF ne])
  show "flush (fst (flush w)) = (fst (flush w), [], Settled (Fulfilled ()))"
    by (rule flush_empty[OF drained])
qed

theorem C5_witness:
  "fst (flush (boot (sample_client\<lparr>buffer := [record_a, record_b]\<rparr>))) = boot sample_client
   \<and> fst (snd (flush (boot (sample_client\<lparr>buffer := [record_a, record_b]\<rparr>)))) = []
   \<and> (\<exists>k. snd (snd (flush (boot (sample_client\<lparr>buffer := [record_a, record_b]\<rparr>)))) =
          AwaitFetch (ingest_request sample_client [record_a, record_b]) k)
   \<and> flush (boot sample_client) = (boot sample_client, [], Settled (Fulfilled ()))"
proof -
  have b: "buffer (client (boot (sample_client\<lparr>buffer := [record_a, record_b]\<rparr>))) \<noteq> []"
    by (simp add: boot_def)
  have f: "fst (flush (boot (sample_client\<lparr>buffer := [record_a, record_b]\<rparr>))) = boot sample_client"
    by (simp add: flush_def boot_def sample_client_def)
  have e: "fst (snd (flush (boot (sample_client\<lparr>buffer := [record_a, record_b]\<rparr>)))) = []"
    by (simp add: flush_def boot_def sample_client_def)
  show ?thesis
    using C5_flush_drains_atomically [of "boot (sample_client\<lparr>buffer := [record_a, record_b]\<rparr>)"] b
    by (simp add: f e) (simp add: boot_def ingest_request_def)
qed

section \<open>Claim C6: the flush timer\<close>

text \<open>
  Claim C6. In every state that a constructed client reaches by calls of \<^verbatim>\<open>captureLog\<close>,
  timer firings and flushes, at most one timer is armed, and the handle is non-null
  exactly when a timer is armed, which is then the timer of the handle. \<^verbatim>\<open>captureLog\<close>
  arms a timer exactly when the handle is null and the batch size is not reached, and a
  flush of a buffer that is not empty clears the timer and the handle before it sends.
\<close>

theorem C6_at_most_one_timer:
  assumes "new_HorizonClient opts = Inr c" and "w = run_actions c acts"
  shows "length (armed w) \<le> 1
       \<and> ((timer (client w) = None) = (armed w = []))
       \<and> (\<forall>h. (timer (client w) = Some h) = (armed w = [h]))
       \<and> filter is_set_timeout (fst (snd (captureLog lvl msg meta now w))) =
            (if timer (client w) = None \<and> int (length (buffer (client w))) + 1 < batchSize (client w)
             then [SetTimeout (next_handle w) (flushInterval (client w))] else [])
       \<and> (buffer (client w) \<noteq> [] \<longrightarrow>
            timer (client (fst (flush w))) = None \<and> armed (fst (flush w)) = []
          \<and> fst (snd (flush w)) = (case timer (client w) of Some h \<Rightarrow> [ClearTimeout h] | None \<Rightarrow> []))"
proof -
  have inv: "timer_inv w"
    using assms by (simp add: reachable_inv)
  have one: "length (armed w) \<le> 1"
    using inv by (auto simp: timer_inv_def split: option.splits)
  have none: "(timer (client w) = None) = (armed w = [])"
    using inv by (auto simp: timer_inv_def split: option.splits)
  have some: "\<forall>h. (timer (client w) = Some h) = (armed w = [h])"
    using inv by (auto simp: timer_inv_def split: option.splits)
  have fl: "buffer (client w) \<noteq> [] \<longrightarrow>
            timer (client (fst (flush w))) = None \<and> armed (fst (flush w)) = []
          \<and> fst (snd (flush w)) = (case timer (client w) of Some h \<Rightarrow> [ClearTimeout h] | None \<Rightarrow> [])"
    using inv by (auto simp: flush_nonempty timer_inv_def split: option.splits)
  from one none some fl captureLog_arms[of lvl msg meta now w] show ?thesis
    by blast
qed

theorem C6_witness:
  "armed (run_actions sample_client [CaptureLog Info ''a'' [] ''t1'']) = [0]
   \<and> timer (client (run_actions sample_client [CaptureLog Info ''a'' [] ''t1''])) = Some 0
   \<and> filter is_set_timeout
        (fst (snd (captureLog Info ''b'' [] ''t2'' (run_actions sample_client [CaptureLog Info ''a'' [] ''t1''])))) = []
   \<and> timer (client (fst (flush (run_actions sample_client [CaptureLog Info ''a'' [] ''t1'']))))  = None
   \<and> armed (fst (flush (run_actions sample_client [CaptureLog Info ''a'' [] ''t1'']))) = []
   \<and> fst (snd (flush (run_actions sample_client [CaptureLog Info ''a'' [] ''t1'']))) = [ClearTimeout 0]"
proof -
  have w: "run_actions sample_client [CaptureLog Info ''a'' [] ''t1''] =
     \<lparr>client = sample_client\<lparr>buffer := [record_a], timer := Some 0\<rparr>, armed = [0], next_handle = 1\<rparr>"
    by (simp add: run_actions_def capture_a)
  show ?thesis
    using C6_at_most_one_timer [OF sample_client_eq w[symmetric], of Info "''b''" "[]" "''t2''"]
    unfolding w by simp
qed

section \<open>Claim C7: construction\<close>

text \<open>
  Claim C7. The constructor throws when the API key is missing or empty, returning no
  client; with a key that is not empty it returns a client with that key, the given or
  default configuration, an empty buffer and no timer, and no call of \<^verbatim>\<open>captureLog\<close>,
  timer firing or flush changes the configuration. The constructor performs no effect:
  it returns neither events nor a promise.
\<close>

theorem C7_api_key_required:
  "(opt_apiKey opts = None \<or> opt_apiKey opts = Some [] \<longrightarrow>
      new_HorizonClient opts = Inl (JsError ''Horizon API Key is required''))
   \<and> (\<forall>k. opt_apiKey opts = Some k \<and> k \<noteq> [] \<longrightarrow>
        (\<exists>c. new_HorizonClient opts = Inr c
           \<and> config c = (k,
                 or_string (opt_ingestUrl opts) ''https://horizon-api.bylinee.com/v1/ingest'',
                 or_string (opt_environment opts) ''production'',
                 or_number (opt_batchSize opts) 50,
                 or_number (opt_flushInterval opts) 2000,
                 or_number (opt_maxRetries opts) 3)
           \<and> buffer c = [] \<and> timer c = None
           \<and> (\<forall>acts. config (client (run_actions c acts)) = config c)))"
proof (intro conjI impI allI)
  assume "opt_apiKey opts = None \<or> opt_apiKey opts = Some []"
  then show "new_HorizonClient opts = Inl (JsError ''Horizon API Key is required'')"
    by (auto simp: new_HorizonClient_def)
next
  fix k
  assume key: "opt_apiKey opts = Some k \<and> k \<noteq> []"
  define c where "c =
    \<lparr> apiKey = k,
      ingestUrl = or_string (opt_ingestUrl opts) ''https://horizon-api.bylinee.com/v1/ingest'',
      environment = or_string (opt_environment opts) ''production'',
      batchSize = or_number (opt_batchSize opts) 50,
      flushInterval = or_number (opt_flushInterval opts) 2000,
      maxRetries = or_number (opt_maxRetries opts) 3,
      buffer = [], timer = None \<rparr>"
  have made: "new_HorizonClient opts = Inr c"
    using key by (simp add: new_HorizonClient_def c_def)
  have conf: "config c = (k,
                 or_string (opt_ingestUrl opts) ''https://horizon-api.bylinee.com/v1/ingest'',
                 or_string (opt_environment opts) ''production'',
                 or_number (opt_batchSize opts) 50,
                 or_number (opt_flushInterval opts) 2000,
                 or_number (opt_maxRetries opts) 3)"
    by (simp add: c_def config_def)
  have fresh: "buffer c = [] \<and> timer c = None"
    by (simp add: c_def)
  have fixed: "\<forall>acts. config (client (run_actions c acts)) = config c"
    by (simp add: run_actions_config)
  from made conf fresh fixed
  show "\<exists>c. new_HorizonClient opts = Inr c
           \<and> config c = (k,
                 or_string (opt_ingestUrl opts) ''https://horizon-api.bylinee.com/v1/ingest'',
                 or_string (opt_environment opts) ''production'',
                 or_number (opt_batchSize opts) 50,
                 or_number (opt_flushInterval opts) 2000,
                 or_number (opt_maxRetries opts) 3)
           \<and> buffer c = [] \<and> timer c = None
           \<and> (\<forall>acts. config (client (run_actions c acts)) = config c)"
    by blast
qed

theorem C7_witness:
  "new_HorizonClient (sample_options\<lparr>opt_apiKey := Some []\<rparr>) = Inl (JsError ''Horizon API Key is required'')
   \<and> new_HorizonClient (sample_options\<lparr>opt_apiKey := None\<rparr>) = Inl (JsError ''Horizon API Key is required'')
   \<and> new_HorizonClient sample_options = Inr sample_client
   \<and> config (client (run_actions sample_client [CaptureLog Info ''a'' [] ''t1'', Flush])) =
        (''key'', ''https://horizon-api.bylinee.com/v1/ingest'', ''production'', 2, 2000, 3)"
  using C7_api_key_required [of "sample_options\<lparr>opt_apiKey := Some []\<rparr>"]
        C7_api_key_required [of "sample_options\<lparr>opt_apiKey := None\<rparr>"]
        C7_api_key_required [of sample_options]
  by (simp add: sample_client_eq) (simp add: sample_options_def sample_client_def config_def or_string_def or_number_def)

section \<open>Claim C8: the watchdog listeners\<close>




section \<open>Claim C9: what a caller of captureLog waits for\<close>

text \<open>
  Claim C9 as stated fails at the threshold: with batch size 2 the promise returned by the
  second \<^verbatim>\<open>captureLog\<close> call is not settled when the call returns, and against a server
  that always answers 503 it settles only after four POSTs and the sleeps of 1000, 2000
  and 4000 ms between them.
\<close>

theorem C9_counterexample:
  "\<not> is_settled (snd (snd (captureLog Info ''b'' [] ''t2''
                             (capture_all (boot sample_client) [(Info, ''a'', [], ''t1'')]))))
   \<and> filter is_suspension
        (fst (run (snd (snd (captureLog Info ''b'' [] ''t2''
                               (capture_all (boot sample_client) [(Info, ''a'', [], ''t1'')]))))
                (net_always (Status 503)))) =
       [Post (ingest_request sample_client [record_a, record_b]) (Status 503), Sleep 1000,
        Post (ingest_request sample_client [record_a, record_b]) (Status 503), Sleep 2000,
        Post (ingest_request sample_client [record_a, record_b]) (Status 503), Sleep 4000,
        Post (ingest_request sample_client [record_a, record_b]) (Status 503)]"
proof -
  obtain k where "snd (snd (captureLog Info ''b'' [] ''t2''
                     (capture_all (boot sample_client) [(Info, ''a'', [], ''t1'')]))) =
                  AwaitFetch (ingest_request (client (capture_all (boot sample_client) [(Info, ''a'', [], ''t1'')]))
                     (buffer (client (capture_all (boot sample_client) [(Info, ''a'', [], ''t1'')]))
                        @ [make_record (client (capture_all (boot sample_client) [(Info, ''a'', [], ''t1'')]))
                             Info ''b'' [] ''t2''])) k"
    using captureLog_promise_awaits[OF sample_threshold] by blast
  then have pending: "\<not> is_settled (snd (snd (captureLog Info ''b'' [] ''t2''
                             (capture_all (boot sample_client) [(Info, ''a'', [], ''t1'')]))))"
    by simp
  have tr: "fst (run (snd (snd (captureLog Info ''b'' [] ''t2''
                               (capture_all (boot sample_client) [(Info, ''a'', [], ''t1'')]))))
                (net_always (Status 503))) =
       [Post (ingest_request sample_client [record_a, record_b]) (Status 503), Sleep 1000,
        Post (ingest_request sample_client [record_a, record_b]) (Status 503), Sleep 2000,
        Post (ingest_request sample_client [record_a, record_b]) (Status 503), Sleep 4000,
        Post (ingest_request sample_client [record_a, record_b]) (Status 503),
        ConsoleError failure_message]"
    unfolding run_captureLog_outcome[OF sample_threshold]
    by (simp add: sample_world_a sample_record_b run_send_sample_503)
  show ?thesis
    by (simp add: pending tr)
qed

text \<open>
  Claim C9, amended. Up to the return of its promise \<^verbatim>\<open>captureLog\<close> performs no
  suspending effect. Below the batch size the promise it returns is already fulfilled.
  At the batch size or beyond, \<^verbatim>\<open>captureLog\<close> awaits the flush: the promise is pending
  at the first POST of the batch and settles only after the whole trace of the send, every
  POST and every backoff sleep, and the diagnostic if the send was abandoned.
\<close>

theorem C9_returns_at_once_but_awaits_flush:
  "filter is_suspension (fst (snd (captureLog lvl msg meta now w))) = []
   \<and> (int (length (buffer (client w))) + 1 < batchSize (client w) \<longrightarrow>
        snd (snd (captureLog lvl msg meta now w)) = Settled (Fulfilled ()))
   \<and> (batchSize (client w) \<le> int (length (buffer (client w))) + 1 \<longrightarrow>
        \<not> is_settled (snd (snd (captureLog lvl msg meta now w)))
      \<and> (\<exists>k. snd (snd (captureLog lvl msg meta now w)) =
             AwaitFetch (ingest_request (client w)
                           (buffer (client w) @ [make_record (client w) lvl msg meta now])) k)
      \<and> run (snd (snd (captureLog lvl msg meta now w))) net =
          (fst (run (send (client w) (buffer (client w) @ [make_record (client w) lvl msg meta now]) 0) net)
             @ (if fst (snd (run (send (client w)
                                   (buffer (client w) @ [make_record (client w) lvl msg meta now]) 0) net))
                     = Fulfilled False
                then [ConsoleError failure_message] else []),
           Fulfilled (),
           snd (snd (run (send (client w)
                            (buffer (client w) @ [make_record (client w) lvl msg meta now]) 0) net))))"
proof (intro conjI impI)
  show "filter is_suspension (fst (snd (captureLog lvl msg meta now w))) = []"
    by (simp add: captureLog_sync_effects)
next
  assume "int (length (buffer (client w))) + 1 < batchSize (client w)"
  then show "snd (snd (captureLog lvl msg meta now w)) = Settled (Fulfilled ())"
    by (rule captureLog_below_settled)
next
  assume thr: "batchSize (client w) \<le> int (length (buffer (client w))) + 1"
  show aw: "\<exists>k. snd (snd (captureLog lvl msg meta now w)) =
             AwaitFetch (ingest_request (client w)
                           (buffer (client w) @ [make_record (client w) lvl msg meta now])) k"
    by (rule captureLog_promise_awaits[OF thr])
  from aw show "\<not> is_settled (snd (snd (captureLog lvl msg meta now w)))"
    by auto
  show "run (snd (snd (captureLog lvl msg meta now w))) net =
          (fst (run (send (client w) (buffer (client w) @ [make_record (client w) lvl msg meta now]) 0) net)
             @ (if fst (snd (run (send (client w)
                                   (buffer (client w) @ [make_record (client w) lvl msg meta now]) 0) net))
                     = Fulfilled False
                then [ConsoleError failure_message] else []),
           Fulfilled (),
           snd (snd (run (send (client w)
                            (buffer (client w) @ [make_record (client w) lvl msg meta now]) 0) net)))"
    by (rule run_captureLog_outcome[OF thr])
qed

theorem C9_witness:
  "snd (snd (captureLog Info ''a'' [] ''t1'' (boot sample_client))) = Settled (Fulfilled ())
   \<and> run (snd (snd (captureLog Info ''b'' [] ''t2''
                        (capture_all (boot sample_client) [(Info, ''a'', [], ''t1'')]))))
         (net_always (Status 200)) =
       ([Post (ingest_request sample_client [record_a, record_b]) (Status 200)], Fulfilled (),
        \<lambda>n. net_always (Status 200) (Suc n))"
proof -
  have below: "int (length (buffer (client (boot sample_client)))) + 1 < batchSize (client (boot sample_client))"
    by (simp add: boot_def sample_client_def)
  have s: "run (send sample_client [record_a, record_b] 0) (net_always (Status 200)) =
     ([Post (ingest_request sample_client [record_a, record_b]) (Status 200)], Fulfilled True,
      \<lambda>n. net_always (Status 200) (Suc n))"
    by (subst send.simps) (simp add: net_always_def res_ok_def)
  show ?thesis
    using C9_returns_at_once_but_awaits_flush [of Info "''a''" "[]" "''t1''" "boot sample_client"] below
          C9_returns_at_once_but_awaits_flush [of Info "''b''" "[]" "''t2''"
            "capture_all (boot sample_client) [(Info, ''a'', [], ''t1'')]" "net_always (Status 200)"]
          sample_threshold
    by (simp add: sample_world_a sample_record_b s)
qed

section \<open>Claim C10: redirect responses\<close>

text \<open>
  Claim C10. A send attempt that is answered with a status in 300..399 settles as
  abandoned (\<open>false\<close>) after that one POST, with no sleep and no further attempt, whatever
  the attempt number and although the retry count may not be exhausted; the flush then
  logs the failure diagnostic.
\<close>

theorem C10_redirect_abandoned_at_once:
  assumes "300 \<le> s" and "s \<le> 399"
  shows "(net 0 = Status s \<longrightarrow>
            run (send c payload attempt) net =
              ([Post (ingest_request c payload) (Status s)], Fulfilled False, \<lambda>n. net (Suc n)))
       \<and> ((\<forall>i<k. retryable (net i) \<and> int i < maxRetries (client w)) \<and> net k = Status s
              \<and> buffer (client w) \<noteq> [] \<longrightarrow>
            run (snd (snd (flush w))) net =
              (concat (map (\<lambda>a. [Post (ingest_request (client w) (buffer (client w))) (net a),
                                  Sleep (2 ^ a * 1000)]) [0..<k])
                 @ [Post (ingest_request (client w) (buffer (client w))) (Status s),
                    ConsoleError failure_message],
               Fulfilled (), \<lambda>n. net (Suc (n + k))))"
proof -
  have one: "\<And>c payload attempt net. net 0 = Status s \<Longrightarrow> run (send c payload attempt) net =
           ([Post (ingest_request c payload) (Status s)], Fulfilled False, \<lambda>n. net (Suc n))"
    using assms by (subst send.simps) (simp add: res_ok_def)
  have two: "(\<forall>i<k. retryable (net i) \<and> int i < maxRetries (client w)) \<and> net k = Status s
              \<and> buffer (client w) \<noteq> [] \<longrightarrow>
            run (snd (snd (flush w))) net =
              (concat (map (\<lambda>a. [Post (ingest_request (client w) (buffer (client w))) (net a),
                                  Sleep (2 ^ a * 1000)]) [0..<k])
                 @ [Post (ingest_request (client w) (buffer (client w))) (Status s),
                    ConsoleError failure_message],
               Fulfilled (), \<lambda>n. net (Suc (n + k)))"
  proof (intro impI, elim conjE)
    assume pre: "\<forall>i<k. retryable (net i) \<and> int i < maxRetries (client w)"
      and nk: "net k = Status s" and ne: "buffer (client w) \<noteq> []"
    have "\<forall>i<k. retryable (net i) \<and> int (0 + i) < maxRetries (client w)"
      using pre by simp
    from send_after_retries[OF this, of "buffer (client w)"]
         one[of "\<lambda>n. net (n + k)" "client w" "buffer (client w)" k] nk
    have "run (send (client w) (buffer (client w)) 0) net =
      (concat (map (\<lambda>a. [Post (ingest_request (client w) (buffer (client w))) (net a),
                                  Sleep (2 ^ a * 1000)]) [0..<k])
                 @ [Post (ingest_request (client w) (buffer (client w))) (Status s)],
               Fulfilled False, \<lambda>n. net (Suc (n + k)))"
      by simp
    then show "run (snd (snd (flush w))) net =
              (concat (map (\<lambda>a. [Post (ingest_request (client w) (buffer (client w))) (net a),
                                  Sleep (2 ^ a * 1000)]) [0..<k])
                 @ [Post (ingest_request (client w) (buffer (client w))) (Status s),
                    ConsoleError failure_message],
               Fulfilled (), \<lambda>n. net (Suc (n + k)))"
      by (simp add: run_flush_promise[OF ne])
  qed
  from one two show ?thesis by blast
qed

theorem C10_witness:
  "run (send sample_client [record_a] 2) (net_always (Status 304)) =
     ([Post (ingest_request sample_client [record_a]) (Status 304)], Fulfilled False,
      \<lambda>n. net_always (Status 304) (Suc n))
   \<and> run (snd (snd (flush (boot (sample_client\<lparr>buffer := [record_a]\<rparr>))))) net_503_then_304 =
     ([Post (ingest_request sample_client [record_a]) (Status 503), Sleep 1000,
       Post (ingest_request sample_client [record_a]) (Status 304), ConsoleError failure_message],
      Fulfilled (), \<lambda>n. net_503_then_304 (Suc (n + 1)))"
proof -
  have s: "300 \<le> (304::int)" "(304::int) \<le> 399"
    by simp_all
  have n: "net_always (Status 304) 0 = Status 304"
    by (simp add: net_always_def)
  have p: "(\<forall>i<1. retryable (net_503_then_304 i)
               \<and> int i < maxRetries (client (boot (sample_client\<lparr>buffer := [record_a]\<rparr>))))
            \<and> net_503_then_304 1 = Status 304
            \<and> buffer (client (boot (sample_client\<lparr>buffer := [record_a]\<rparr>))) \<noteq> []"
    by (simp add: net_503_then_304_def boot_def sample_client_def)
  from C10_redirect_abandoned_at_once [OF s, of "net_always (Status 304)" sample_client "[record_a]" 2] n
  have a: "run (send sample_client [record_a] 2) (net_always (Status 304)) =
     ([Post (ingest_request sample_client [record_a]) (Status 304)], Fulfilled False,
      \<lambda>n. net_always (Status 304) (Suc n))"
    by blast
  from C10_redirect_abandoned_at_once [OF s, of net_503_then_304 _ _ _ 1 "boot (sample_client\<lparr>buffer := [record_a]\<rparr>)"] p
  have "run (snd (snd (flush (boot (sample_client\<lparr>buffer := [record_a]\<rparr>))))) net_503_then_304 =
        (concat (map (\<lambda>a. [Post (ingest_request (client (boot (sample_client\<lparr>buffer := [record_a]\<rparr>)))
                                   (buffer (client (boot (sample_client\<lparr>buffer := [record_a]\<rparr>)))))
                                (net_503_then_304 a),
                           Sleep (2 ^ a * 1000)]) [0..<1])
           @ [Post (ingest_request (client (boot (sample_client\<lparr>buffer := [record_a]\<rparr>)))
                      (buffer (client (boot (sample_client\<lparr>buffer := [record_a]\<rparr>)))))
                (Status 304),
              ConsoleError failure_message],
         Fulfilled (), \<lambda>n. net_503_then_304 (Suc (n + 1)))"
    by blast
  then have b: "run (snd (snd (flush (boot (sample_client\<lparr>buffer := [record_a]\<rparr>))))) net_503_then_304 =
     ([Post (ingest_request sample_client [record_a]) (Status 503), Sleep 1000,
       Post (ingest_request sample_client [record_a]) (Status 304), ConsoleError failure_message],
      Fulfilled (), \<lambda>n. net_503_then_304 (Suc (n + 1)))"
    by (simp add: boot_def ingest_request_def net_503_then_304_def)
  from a b show ?thesis by simp
qed

end
